theory Spec2Isabelle
  imports Main "HOL-Library.Stream" "HOL-Library.Sublist"
begin

section \<open>The session service of main.go\<close>

text \<open>
  The Go program keeps PowerShell child processes in a \<^verbatim>\<open>SessionManager\<close> and talks to
  each of them through its pipes. The embedding below follows \<^verbatim>\<open>main.go\<close> function by
  function. Everything outside the program is an explicit input of the model:
  \<^item> the outcome of every future \<^verbatim>\<open>Stdout.Read\<close> of a session is an element of a stream
    of pairs (bytes delivered, error value);
  \<^item> the outcome of every future \<^verbatim>\<open>Stdin.Write\<close> is an element of a stream
    (\<open>None\<close> for success, \<open>Some e\<close> for an error);
  \<^item> the values of future \<^verbatim>\<open>uuid.New().String()\<close> calls are a stream of strings;
  \<^item> the outcome of every future process spawn is an element of a stream.
  Strings are byte lists, as in Go. Log output is not modelled.
\<close>

subsection \<open>Data\<close>

text \<open>The \<^verbatim>\<open>err\<close> value of a \<^verbatim>\<open>Read\<close>: \<^verbatim>\<open>nil\<close>, \<^verbatim>\<open>io.EOF\<close>, or any other error.\<close>

datatype io_err = err_nil | io_EOF | io_failure string

type_synonym read_outcome = "string \<times> io_err"

text \<open>
  The errors of the core. In the source they are \<^verbatim>\<open>fmt.Errorf\<close> values with the fixed
  prefixes "failed to create/start ...", "session not found: ", "session is not running",
  "failed to write command: " and "failed to read output: ".
\<close>

datatype error =
    SpawnError string
  | NotFoundError string
  | NotRunningError
  | WriteError string
  | ReadError string

text \<open>
  The struct \<^verbatim>\<open>Session\<close>. \<open>Stdin\<close> is the write end of the pipe: what has been written, whether
  it was closed, and the outcomes of the writes to come. \<open>Stdout\<close> is the outcomes of the
  reads to come. \<^verbatim>\<open>Cmd\<close> is used for \<^verbatim>\<open>Process.Kill\<close> only, recorded in \<open>Killed\<close>; \<^verbatim>\<open>Stderr\<close> is
  never read and the mutex belongs to the scheduling of callers, so neither is a field.
\<close>

record Session =
  ID :: string
  Running :: bool
  Stdin_written :: "string list"
  Stdin_closed :: bool
  Stdin_outcomes :: "string option stream"
  Stdout :: "read_outcome stream"
  Killed :: bool

subsection \<open>Session.RunCommand\<close>

text \<open>
  The inner \<^verbatim>\<open>for i := len(output) - n; i <= len(output)-len(markerBytes); i++\<close> with its
  early return at the first \<open>i\<close> where \<^verbatim>\<open>output[i:i+len(markerBytes)]\<close> equals the marker.
\<close>

definition find_marker :: "string \<Rightarrow> nat \<Rightarrow> string \<Rightarrow> nat option" where
  "find_marker output n marker =
     List.find (\<lambda>i. take (length marker) (drop i output) = marker)
       [length output - n ..< Suc (length output - length marker)]"

text \<open>
  The block \<^verbatim>\<open>if n > 0 { output = append(...); if len(output) >= len(markerBytes) { for ... } }\<close>
  as far as the search is concerned: \<open>bs\<close> is \<^verbatim>\<open>buffer[:n]\<close>.
\<close>

definition scan_new :: "string \<Rightarrow> string \<Rightarrow> string \<Rightarrow> nat option" where
  "scan_new marker output bs =
     (if length bs > 0 \<and> length (output @ bs) \<ge> length marker
      then find_marker (output @ bs) (length bs) marker
      else None)"

text \<open>The two \<^verbatim>\<open>if\<close> statements that clean the result: first a final LF, then a final CR.\<close>

definition strip_newline :: "string \<Rightarrow> string" where
  "strip_newline result =
     (let r1 = (if length result > 0 \<and> result ! (length result - 1) = CHR 0x0A
                then take (length result - 1) result else result)
      in if length r1 > 0 \<and> r1 ! (length r1 - 1) = CHR 0x0D
         then take (length r1 - 1) r1 else r1)"

text \<open>One iteration of the outer \<^verbatim>\<open>for\<close>: it returns from the function or goes round again.\<close>

datatype loop_ctl = Return "error + string" | Continue string

definition loop_body :: "string \<Rightarrow> string \<Rightarrow> read_outcome \<Rightarrow> loop_ctl" where
  "loop_body marker output r =
     (case snd r of
        io_failure e \<Rightarrow> Return (Inl (ReadError e))
      | _ \<Rightarrow>
         (let output' = (if length (fst r) > 0 then output @ fst r else output)
          in case scan_new marker output (fst r) of
               Some i \<Rightarrow> Return (Inr (strip_newline (take i output')))
             | None \<Rightarrow>
                 if length output' > 1024 * 1024 then Return (Inr output')
                 else Continue output'))"

text \<open>
  The outer loop. It has no bound of its own, so the model counts reads with fuel:
  \<open>None\<close> means that the loop is still running after \<open>fuel\<close> reads. A result comes with
  the reads that are left.
\<close>

fun read_loop ::
  "nat \<Rightarrow> string \<Rightarrow> read_outcome stream \<Rightarrow> string \<Rightarrow>
     ((error + string) \<times> read_outcome stream) option" where
  "read_loop 0 marker st output = None"
| "read_loop (Suc fuel) marker st output =
     (case loop_body marker output (shd st) of
        Return res \<Rightarrow> Some (res, stl st)
      | Continue output' \<Rightarrow> read_loop fuel marker (stl st) output')"

definition fullCommand :: "string \<Rightarrow> string \<Rightarrow> string" where
  "fullCommand command marker =
     ''& { '' @ command @ '' } *>&1 | Out-String; Write-Host '' @ [CHR 0x27] @ marker
       @ [CHR 0x27, CHR 0x0A]"

text \<open>
  \<^verbatim>\<open>RunCommand\<close>: the running check, a new marker, the write, the read loop. The result is
  the returned pair (as a sum), the session afterwards and the UUIDs left.
\<close>

definition RunCommand ::
  "nat \<Rightarrow> string stream \<Rightarrow> Session \<Rightarrow> string \<Rightarrow>
     ((error + string) \<times> Session \<times> string stream) option" where
  "RunCommand fuel us s command =
     (if \<not> Running s then Some (Inl NotRunningError, s, us)
      else
        (let marker = shd us;
             full = fullCommand command marker
         in case shd (Stdin_outcomes s) of
              Some e \<Rightarrow>
                Some (Inl (WriteError e),
                      s\<lparr>Stdin_outcomes := stl (Stdin_outcomes s)\<rparr>, stl us)
            | None \<Rightarrow>
               (case read_loop fuel marker (Stdout s) [] of
                  None \<Rightarrow> None
                | Some (res, rest) \<Rightarrow>
                    Some (res,
                          s\<lparr>Stdin_written := Stdin_written s @ [full],
                            Stdin_outcomes := stl (Stdin_outcomes s),
                            Stdout := rest\<rparr>,
                          stl us))))"

subsection \<open>SessionManager\<close>

text \<open>
  What starting a process can do: each of the four calls \<^verbatim>\<open>StdinPipe\<close>, \<^verbatim>\<open>StdoutPipe\<close>,
  \<^verbatim>\<open>StderrPipe\<close>, \<^verbatim>\<open>Start\<close> can fail, or the process runs and has its future pipe traffic.
\<close>

datatype spawn_outcome =
    StdinPipe_fails string
  | StdoutPipe_fails string
  | StderrPipe_fails string
  | Start_fails string
  | Started "string option stream" "read_outcome stream"

text \<open>
  The map of the manager holds pointers, and a caller that has got a \<^verbatim>\<open>*Session\<close> keeps it
  whatever happens to the map. So the sessions live in a store (\<open>heap\<close>, addressed by
  position) and the map holds addresses. The state also carries the UUIDs and spawn outcomes
  to come.
\<close>

record World =
  sessions :: "string \<rightharpoonup> nat"
  heap :: "Session list"
  uuids :: "string stream"
  spawns :: "spawn_outcome stream"

definition NewSessionManager :: "string stream \<Rightarrow> spawn_outcome stream \<Rightarrow> World" where
  "NewSessionManager us sp = \<lparr>sessions = Map.empty, heap = [], uuids = us, spawns = sp\<rparr>"

definition CreateSession :: "World \<Rightarrow> (error + nat) \<times> World" where
  "CreateSession w =
     (let sessionID = shd (uuids w);
          w1 = w\<lparr>uuids := stl (uuids w), spawns := stl (spawns w)\<rparr>
      in case shd (spawns w) of
           StdinPipe_fails e \<Rightarrow> (Inl (SpawnError (''failed to create stdin pipe: '' @ e)), w1)
         | StdoutPipe_fails e \<Rightarrow> (Inl (SpawnError (''failed to create stdout pipe: '' @ e)), w1)
         | StderrPipe_fails e \<Rightarrow> (Inl (SpawnError (''failed to create stderr pipe: '' @ e)), w1)
         | Start_fails e \<Rightarrow> (Inl (SpawnError (''failed to start powershell: '' @ e)), w1)
         | Started win rout \<Rightarrow>
             (let session = \<lparr>ID = sessionID, Running = True, Stdin_written = [],
                              Stdin_closed = False, Stdin_outcomes = win, Stdout = rout,
                              Killed = False\<rparr>
              in (Inr (length (heap w)),
                  w1\<lparr>heap := heap w @ [session],
                     sessions := (sessions w)(sessionID \<mapsto> length (heap w))\<rparr>)))"

definition GetSession :: "World \<Rightarrow> string \<Rightarrow> nat option" where
  "GetSession w sessionID = sessions w sessionID"

definition EndSession :: "World \<Rightarrow> string \<Rightarrow> error option \<times> World" where
  "EndSession w sessionID =
     (case sessions w sessionID of
        None \<Rightarrow> (Some (NotFoundError sessionID), w)
      | Some p \<Rightarrow>
         (let session = heap w ! p;
              session' = (if Running session
                          then session\<lparr>Stdin_closed := True, Killed := True, Running := False\<rparr>
                          else session)
          in (None, w\<lparr>heap := (heap w)[p := session'],
                      sessions := (sessions w)(sessionID := None)\<rparr>)))"

text \<open>\<^verbatim>\<open>RunCommand\<close> called through a pointer \<open>p\<close>: the session in the store is updated.\<close>

definition RunCommand_at ::
  "nat \<Rightarrow> World \<Rightarrow> nat \<Rightarrow> string \<Rightarrow> ((error + string) \<times> World) option" where
  "RunCommand_at fuel w p command =
     (case RunCommand fuel (uuids w) (heap w ! p) command of
        None \<Rightarrow> None
      | Some (res, s', us') \<Rightarrow> Some (res, w\<lparr>heap := (heap w)[p := s'], uuids := us'\<rparr>))"

text \<open>
  The states the service can get into: from the empty manager, by the three operations, each
  taken as one step (each runs under the locks it takes). \<^verbatim>\<open>RunCommand\<close> is called on a
  pointer that \<^verbatim>\<open>CreateSession\<close> has handed out.
\<close>

inductive reachable :: "World \<Rightarrow> bool" where
  init: "reachable (NewSessionManager us sp)"
| create: "reachable w \<Longrightarrow> reachable (snd (CreateSession w))"
| destroy: "reachable w \<Longrightarrow> reachable (snd (EndSession w sessionID))"
| run: "reachable w \<Longrightarrow> p < length (heap w) \<Longrightarrow>
        RunCommand_at fuel w p command = Some (res, w') \<Longrightarrow> reachable w'"

subsection \<open>Vocabulary for the statements\<close>

text \<open>A read outcome counts as a failure when its error is neither \<^verbatim>\<open>nil\<close> nor \<^verbatim>\<open>io.EOF\<close>.\<close>

definition is_failure :: "io_err \<Rightarrow> bool" where
  "is_failure e = (case e of io_failure m \<Rightarrow> True | _ \<Rightarrow> False)"

definition no_failure :: "read_outcome list \<Rightarrow> bool" where
  "no_failure rs = list_all (\<lambda>r. \<not> is_failure (snd r)) rs"

text \<open>The bytes that a sequence of reads delivers, in order.\<close>

definition received :: "read_outcome list \<Rightarrow> string" where
  "received rs = concat (map fst rs)"

text \<open>
  The search of the program comes up empty at every one of the reads \<open>rs\<close>, the buffer
  being \<open>output\<close> before the first of them.
\<close>

fun never_found :: "string \<Rightarrow> string \<Rightarrow> read_outcome list \<Rightarrow> bool" where
  "never_found marker output [] = True"
| "never_found marker output (r # rs) =
     (scan_new marker output (fst r) = None \<and> never_found marker (output @ fst r) rs)"

text \<open>
  The trimming as the specification words it: exactly one trailing line terminator, CRLF,
  LF or CR, is taken off when there is one.
\<close>

definition strip_one_terminator :: "string \<Rightarrow> string" where
  "strip_one_terminator xs =
     (if suffix [CHR 0x0D, CHR 0x0A] xs then take (length xs - 2) xs
      else if suffix [CHR 0x0A] xs \<or> suffix [CHR 0x0D] xs then take (length xs - 1) xs
      else xs)"

text \<open>
  The session after a call that wrote its command and read up to \<open>rest\<close>.
\<close>

definition after_command :: "Session \<Rightarrow> string \<Rightarrow> string \<Rightarrow> read_outcome stream \<Rightarrow> Session" where
  "after_command s command marker rest =
     s\<lparr>Stdin_written := Stdin_written s @ [fullCommand command marker],
       Stdin_outcomes := stl (Stdin_outcomes s), Stdout := rest\<rparr>"

text \<open>
  The state of the manager is in order: every pointer in the map is allocated, its session
  is running, and no other identifier has the same pointer.
\<close>

definition registry_ok :: "World \<Rightarrow> bool" where
  "registry_ok w =
     (\<forall>i p. sessions w i = Some p \<longrightarrow>
        p < length (heap w) \<and> Running (heap w ! p) \<and> (\<forall>j. sessions w j = Some p \<longrightarrow> j = i))"

subsection \<open>Concrete inputs\<close>

definition ex_marker1 :: string where
  "ex_marker1 = ''123e4567-e89b-42d3-a456-426614174000''"

definition ex_marker2 :: string where
  "ex_marker2 = ''9b2f0c1a-7d4e-4f6a-8b3c-5e1d2a3b4c5d''"

definition ex_uuids :: "string stream" where
  "ex_uuids = ex_marker1 ## ex_marker2 ## sconst ''00000000-0000-4000-8000-000000000000''"

text \<open>A running session whose process accepts every write and whose reads are \<open>st\<close>.\<close>

definition ex_session :: "read_outcome stream \<Rightarrow> Session" where
  "ex_session st =
     \<lparr>ID = ''5d3c1b2a-0f9e-4d8c-b7a6-1f2e3d4c5b6a'', Running = True, Stdin_written = [],
      Stdin_closed = False, Stdin_outcomes = sconst None, Stdout = st, Killed = False\<rparr>"

text \<open>The stream of a process that has exited: every read gives no bytes and \<^verbatim>\<open>io.EOF\<close>.\<close>

definition at_eof :: "read_outcome stream" where
  "at_eof = sconst ([], io_EOF)"

text \<open>
  The output \<^verbatim>\<open>hello\<close>, CRLF, the marker, CRLF, delivered in two reads; the first read ends
  after the first thirteen bytes of the marker.
\<close>

definition ex_split_reads :: "read_outcome list" where
  "ex_split_reads =
     [(''hello'' @ [CHR 0x0D, CHR 0x0A] @ take 13 ex_marker1, err_nil),
      (drop 13 ex_marker1 @ [CHR 0x0D, CHR 0x0A], err_nil)]"

text \<open>The output \<^verbatim>\<open>123xxx\<close>, CRLF, the marker, LF; the marker is whole in the second read.\<close>

definition ex_whole_reads :: "read_outcome list" where
  "ex_whole_reads =
     [(''123'', err_nil),
      (''xxx'' @ [CHR 0x0D, CHR 0x0A] @ ex_marker1 @ [CHR 0x0A], err_nil)]"

text \<open>A process that prints the letter a without end, 1024 bytes at every read.\<close>

definition ex_chunk :: read_outcome where
  "ex_chunk = (replicate 1024 (CHR ''a''), err_nil)"

text \<open>The session of a process that prints without end.\<close>

definition ex_flood_session :: Session where
  "ex_flood_session = ex_session (sconst ex_chunk)"

text \<open>The session of a process that prints \<^verbatim>\<open>hello\<close> and exits.\<close>

definition ex_short_session :: Session where
  "ex_short_session = ex_session ([(''hello'', err_nil)] @- at_eof)"

text \<open>
  A session on which two commands are run: the output of the first is that of
  \<open>ex_whole_reads\<close>; the second prints the marker of the first as text, and then its own.
\<close>

definition ex_second_read :: read_outcome where
  "ex_second_read =
     (''echoed '' @ ex_marker1 @ [CHR 0x0D, CHR 0x0A] @ ex_marker2 @ [CHR 0x0A], err_nil)"

definition ex_two_commands_session :: Session where
  "ex_two_commands_session = ex_session (ex_whole_reads @- ex_second_read ## at_eof)"

text \<open>A process that prints \<^verbatim>\<open>hello\<close>; the read after that fails.\<close>

definition ex_read_error_session :: Session where
  "ex_read_error_session =
     ex_session ((''hello'', err_nil) ## ([], io_failure ''read |0: file already closed'') ## at_eof)"

text \<open>A session whose first read fails and whose next read delivers \<open>ex_second_read\<close>.\<close>

definition ex_flaky_session :: Session where
  "ex_flaky_session = ex_session (([], io_failure ''i/o timeout'') ## ex_second_read ## at_eof)"

text \<open>
  A process that prints the first marker as text, then a line end, and exits.
\<close>

definition ex_other_marker_session :: Session where
  "ex_other_marker_session =
     ex_session ([(''echoed '' @ ex_marker1 @ [CHR 0x0D, CHR 0x0A], err_nil)] @- at_eof)"

text \<open>A session whose pipe is broken: every write fails.\<close>

definition ex_broken_session :: Session where
  "ex_broken_session = (ex_session at_eof)\<lparr>Stdin_outcomes := sconst (Some ''broken pipe'')\<rparr>"

text \<open>A session whose first read fails.\<close>

definition ex_unreadable_session :: Session where
  "ex_unreadable_session = ex_session (([], io_failure ''file already closed'') ## at_eof)"

text \<open>A manager in which one session has been created, and the same after ending it.\<close>

definition ex_world0 :: World where
  "ex_world0 = NewSessionManager ex_uuids (sconst (Started (sconst None) at_eof))"

definition ex_world1 :: World where
  "ex_world1 = snd (CreateSession ex_world0)"

definition ex_world2 :: World where
  "ex_world2 = snd (EndSession ex_world1 ex_marker1)"

section \<open>Properties\<close>

subsection \<open>The read loop\<close>

lemma loop_body_quiet:
  assumes "\<not> is_failure (snd r)" "scan_new m out (fst r) = None"
    "length (out @ fst r) \<le> 1024 * 1024"
  shows "loop_body m out r = Continue (out @ fst r)"
  using assms by (cases "snd r") (auto simp: loop_body_def is_failure_def)

lemma read_loop_skip:
  "no_failure rs \<Longrightarrow> never_found m out rs \<Longrightarrow> length (out @ received rs) \<le> 1024 * 1024 \<Longrightarrow>
   read_loop (length rs + fuel) m (rs @- st) out = read_loop fuel m st (out @ received rs)"
proof (induction rs arbitrary: out)
  case Nil
  then show ?case by (simp add: received_def)
next
  case (Cons r rs)
  have b: "loop_body m out r = Continue (out @ fst r)"
    using Cons.prems by (intro loop_body_quiet) (auto simp: no_failure_def received_def)
  have "read_loop (length rs + fuel) m (rs @- st) (out @ fst r)
        = read_loop fuel m st ((out @ fst r) @ received rs)"
    using Cons.prems by (intro Cons.IH) (auto simp: no_failure_def received_def)
  with b show ?case by (simp add: received_def)
qed

lemma read_loop_eof:
  "length out \<le> 1024 * 1024 \<Longrightarrow> read_loop fuel m at_eof out = None"
  unfolding at_eof_def by (induction fuel) (auto simp: loop_body_def scan_new_def)

lemma read_loop_mono:
  "read_loop fuel m st out = Some x \<Longrightarrow> read_loop (fuel + k) m st out = Some x"
  by (induction fuel m st out rule: read_loop.induct) (auto split: loop_ctl.splits)

lemma find_Some_set: "List.find P xs = Some x \<Longrightarrow> x \<in> set xs \<and> P x"
  by (induction xs) (auto split: if_splits)

lemma find_marker_Some:
  "find_marker output n marker = Some i \<Longrightarrow>
     take (length marker) (drop i output) = marker \<and> length output - n \<le> i
     \<and> i \<le> length output - length marker"
proof -
  assume "find_marker output n marker = Some i"
  then have "i \<in> set [length output - n ..< Suc (length output - length marker)]
     \<and> take (length marker) (drop i output) = marker"
    unfolding find_marker_def by (intro find_Some_set)
  then show ?thesis by (simp del: upt_Suc add: less_Suc_eq_le)
qed

text \<open>What one iteration can do, case by case.\<close>

lemma loop_body_cases:
  "(is_failure (snd r) \<and> (\<exists>e. snd r = io_failure e \<and> loop_body m out r = Return (Inl (ReadError e))))
   \<or> (\<not> is_failure (snd r) \<and> (\<exists>i. scan_new m out (fst r) = Some i
         \<and> loop_body m out r = Return (Inr (strip_newline (take i (out @ fst r))))))
   \<or> (\<not> is_failure (snd r) \<and> scan_new m out (fst r) = None \<and> length (out @ fst r) > 1024 * 1024
         \<and> loop_body m out r = Return (Inr (out @ fst r)))
   \<or> (\<not> is_failure (snd r) \<and> scan_new m out (fst r) = None \<and> length (out @ fst r) \<le> 1024 * 1024
         \<and> loop_body m out r = Continue (out @ fst r))"
  by (cases "snd r"; cases "scan_new m out (fst r)")
     (auto simp: loop_body_def is_failure_def Let_def)

lemma read_loop_result_kind:
  "read_loop fuel m st out = Some (res, rest) \<Longrightarrow> res \<noteq> Inl NotRunningError"
proof (induction fuel m st out rule: read_loop.induct)
  case (1 marker st out)
  then show ?case by simp
next
  case (2 fuel marker st out)
  show ?case
    using loop_body_cases[of "shd st" marker out] "2.prems" "2.IH"
    by (auto split: loop_ctl.splits)
qed

lemma RunCommand_Running:
  "RunCommand fuel us s c = Some (res, s', us') \<Longrightarrow> Running s' = Running s"
  by (auto simp: RunCommand_def Let_def split: if_splits option.splits)

lemma never_found_append:
  "never_found m out (rs @ rs') = (never_found m out rs \<and> never_found m (out @ received rs) rs')"
  by (induction rs arbitrary: out) (auto simp: received_def)

lemma no_failure_append: "no_failure (rs @ rs') = (no_failure rs \<and> no_failure rs')"
  by (simp add: no_failure_def)

lemma received_append: "received (rs @ rs') = received rs @ received rs'"
  by (simp add: received_def)

lemma received_single: "received [r] = fst r"
  by (simp add: received_def)

lemma suffix_snoc1: "suffix [a] (xs @ [y]) \<longleftrightarrow> y = a"
  by (simp add: suffix_def)

lemma suffix_snoc2: "suffix [a, b] (zs @ [z, y]) \<longleftrightarrow> z = a \<and> y = b"
proof -
  have "suffix ([a] @ [b]) ((zs @ [z]) @ [y]) \<longleftrightarrow> suffix [a] (zs @ [z]) \<and> y = b"
    by (simp only: snoc_suffix_snoc) auto
  then show ?thesis by (auto simp add: suffix_snoc1)
qed

lemma strip_newline_spec: "strip_newline xs = strip_one_terminator xs"
proof (cases xs rule: rev_cases)
  case Nil then show ?thesis by (simp add: strip_newline_def strip_one_terminator_def)
next
  case (snoc ys y)
  show ?thesis
  proof (cases ys rule: rev_cases)
    case Nil
    with \<open>xs = ys @ [y]\<close> show ?thesis by (simp add: strip_newline_def strip_one_terminator_def suffix_Cons)
  next
    case (snoc zs z)
    have a: "\<And>c. suffix [c] (zs @ [z, y]) \<longleftrightarrow> y = c"
      using suffix_snoc1[of _ "zs @ [z]" y] by simp
    from snoc \<open>xs = ys @ [y]\<close> show ?thesis
      by (simp add: strip_newline_def strip_one_terminator_def nth_append Let_def suffix_snoc2 a)
  qed
qed

text \<open>With the session running and the write accepted, the call is the read loop.\<close>

lemma RunCommand_read_loop:
  assumes "Running s" "shd (Stdin_outcomes s) = None"
  shows "RunCommand fuel us s command =
     map_option (\<lambda>x. (fst x, after_command s command (shd us) (snd x), stl us))
       (read_loop fuel (shd us) (Stdout s) [])"
  using assms by (auto simp: RunCommand_def Let_def after_command_def split: option.splits)

text \<open>The loop after a prefix of reads at which nothing happens, then one more read.\<close>

lemma read_loop_prefix_then:
  assumes "no_failure rs" "never_found m [] rs" "length (received rs) \<le> 1024 * 1024"
    and "loop_body m (received rs) r = Return res"
  shows "read_loop (Suc (length rs + k)) m ((rs @ [r]) @- rest) [] = Some (res, rest)"
proof -
  have "read_loop (length rs + Suc k) m (rs @- (r ## rest)) []
      = read_loop (Suc k) m (r ## rest) ([] @ received rs)"
    using assms(1-3) by (intro read_loop_skip) simp_all
  with assms(4) show ?thesis by simp
qed

lemma scan_new_absent:
  assumes "\<not> set m \<subseteq> A" "set out \<subseteq> A" "set bs \<subseteq> A"
  shows "scan_new m out bs = None"
proof (rule ccontr)
  assume "scan_new m out bs \<noteq> None"
  then obtain i where "find_marker (out @ bs) (length bs) m = Some i"
    by (auto simp: scan_new_def split: if_splits)
  then have "take (length m) (drop i (out @ bs)) = m"
    using find_marker_Some by blast
  then have "set m \<subseteq> set (out @ bs)"
    by (metis set_drop_subset set_take_subset subset_trans)
  with assms show False by auto
qed

lemma never_found_absent:
  "\<not> set m \<subseteq> A \<Longrightarrow> set out \<subseteq> A \<Longrightarrow> (\<forall>r\<in>set rs. set (fst r) \<subseteq> A) \<Longrightarrow> never_found m out rs"
  by (induction rs arbitrary: out) (auto simp: scan_new_absent)

lemma read_loop_returns:
  "read_loop fuel m st out = Some (res, rest) \<Longrightarrow> length out \<le> 1024 * 1024 \<Longrightarrow>
   \<exists>rs r. st = (rs @ [r]) @- rest \<and> no_failure rs \<and> never_found m out rs
     \<and> length (out @ received rs) \<le> 1024 * 1024
     \<and> loop_body m (out @ received rs) r = Return res"
proof (induction fuel arbitrary: st out)
  case 0
  then show ?case by simp
next
  case (Suc fuel)
  show ?case
  proof (cases "loop_body m out (shd st)")
    case (Return res')
    with Suc.prems have "st = ([] @ [shd st]) @- rest" "loop_body m (out @ received []) (shd st) = Return res"
      by (auto simp: received_def)
    moreover have "no_failure []" "never_found m out []" "length (out @ received []) \<le> 1024 * 1024"
      using Suc.prems by (simp_all add: no_failure_def received_def)
    ultimately show ?thesis by blast
  next
    case (Continue out')
    with loop_body_cases[of "shd st" m out]
    have c: "\<not> is_failure (snd (shd st))" "scan_new m out (fst (shd st)) = None"
      "length (out @ fst (shd st)) \<le> 1024 * 1024" "out' = out @ fst (shd st)"
      by auto
    from Continue Suc.prems have "read_loop fuel m (stl st) out' = Some (res, rest)"
      by simp
    with c(3,4) Suc.IH[of "stl st" out'] obtain rs r where
      r: "stl st = (rs @ [r]) @- rest" "no_failure rs" "never_found m out' rs"
        "length (out' @ received rs) \<le> 1024 * 1024" "loop_body m (out' @ received rs) r = Return res"
      by auto
    have "((shd st # rs) @ [r]) @- rest = shd st ## ((rs @ [r]) @- rest)" by simp
    also have "\<dots> = shd st ## stl st" by (simp only: r(1))
    also have "\<dots> = st" by simp
    finally have 1: "st = ((shd st # rs) @ [r]) @- rest" by simp
    have 2: "no_failure (shd st # rs)"
      using r(2) c(1) by (simp add: no_failure_def)
    have 3: "never_found m out (shd st # rs)"
      using r(3) c(2) unfolding c(4) by simp
    have e: "out @ received (shd st # rs) = out' @ received rs"
      unfolding c(4) by (simp add: received_def)
    have 4: "length (out @ received (shd st # rs)) \<le> 1024 * 1024"
      "loop_body m (out @ received (shd st # rs)) r = Return res"
      unfolding e using r(4,5) by simp_all
    from 1 2 3 4 show ?thesis by blast
  qed
qed

lemma read_loop_never:
  assumes "no_failure rs" "never_found m [] rs" "length (received rs) \<le> 1024 * 1024"
  shows "read_loop fuel m (rs @- at_eof) [] = None"
proof (rule ccontr)
  assume "read_loop fuel m (rs @- at_eof) [] \<noteq> None"
  then obtain x where "read_loop fuel m (rs @- at_eof) [] = Some x" by auto
  then have "read_loop (fuel + length rs) m (rs @- at_eof) [] = Some x"
    by (rule read_loop_mono)
  moreover have "read_loop (length rs + fuel) m (rs @- at_eof) [] = read_loop fuel m at_eof ([] @ received rs)"
    using assms by (intro read_loop_skip) simp_all
  ultimately show False
    using read_loop_eof[of "received rs" fuel m] assms(3) by (simp add: add.commute)
qed

lemma scan_new_Some:
  "scan_new m out bs = Some i \<Longrightarrow> take (length m) (drop i (out @ bs)) = m"
  using find_marker_Some[of "out @ bs" "length bs" m i]
  by (auto simp: scan_new_def split: if_splits)

lemma never_found_no_sublist:
  "\<not> sublist m (out @ received rs) \<Longrightarrow> never_found m out rs"
proof (induction rs arbitrary: out)
  case Nil
  then show ?case by simp
next
  case (Cons r rs)
  have e: "out @ received (r # rs) = (out @ fst r) @ received rs"
    by (simp add: received_def)
  have "scan_new m out (fst r) = None"
  proof (rule ccontr)
    assume "scan_new m out (fst r) \<noteq> None"
    then obtain i where "scan_new m out (fst r) = Some i" by auto
    then have "take (length m) (drop i (out @ fst r)) = m" by (rule scan_new_Some)
    then have "out @ fst r = take i (out @ fst r) @ m @ drop (length m) (drop i (out @ fst r))"
      by (metis append_take_drop_id)
    then have "(out @ fst r) @ received rs
        = take i (out @ fst r) @ m @ (drop (length m) (drop i (out @ fst r)) @ received rs)"
      by (metis append.assoc)
    then have "sublist m ((out @ fst r) @ received rs)"
      unfolding sublist_def by blast
    with Cons.prems e show False by simp
  qed
  moreover have "never_found m (out @ fst r) rs"
    using Cons.prems e by (intro Cons.IH) simp
  ultimately show ?case by simp
qed

lemma read_loop_within:
  assumes "no_failure rs" "never_found m [] rs" "length (received rs) \<le> 1024 * 1024"
    and "fuel \<le> length rs"
  shows "read_loop fuel m (rs @- st) [] = None"
proof (rule ccontr)
  assume "read_loop fuel m (rs @- st) [] \<noteq> None"
  then obtain x where "read_loop fuel m (rs @- st) [] = Some x" by auto
  then have "read_loop (fuel + (length rs - fuel)) m (rs @- st) [] = Some x"
    by (rule read_loop_mono)
  moreover have "read_loop (length rs + 0) m (rs @- st) [] = read_loop 0 m st ([] @ received rs)"
    using assms(1-3) by (intro read_loop_skip) simp_all
  ultimately show False using assms(4) by simp
qed

lemma not_sublist_same_length:
  assumes "length a = length b" "a \<noteq> b"
  shows "\<not> sublist a b"
proof
  assume "sublist a b"
  then obtain ps ss where b: "b = ps @ a @ ss" unfolding sublist_def by blast
  then have "length b = length ps + length a + length ss" by simp
  with assms(1) have "ps = []" "ss = []" by simp_all
  with b assms(2) show False by simp
qed

lemma RunCommand_within:
  assumes "Running t" "shd (Stdin_outcomes t) = None" "Stdout t = rs @- st"
    and "no_failure rs" "length (received rs) \<le> 1024 * 1024"
    and "\<not> sublist (shd us) (received rs)" "fuel \<le> length rs"
  shows "RunCommand fuel us t c = None"
proof -
  have "never_found (shd us) [] rs"
    using assms(6) by (intro never_found_no_sublist) simp
  then have "read_loop fuel (shd us) (rs @- st) [] = None"
    using assms(4,5,7) by (intro read_loop_within)
  with assms(1-3) show ?thesis by (simp add: RunCommand_read_loop)
qed

lemma RunCommand_never:
  assumes "Running t" "shd (Stdin_outcomes t) = None" "Stdout t = rs @- at_eof"
    and "no_failure rs" "length (received rs) \<le> 1024 * 1024"
    and "\<not> sublist (shd us) (received rs)"
  shows "RunCommand fuel us t c = None"
proof -
  have "never_found (shd us) [] rs"
    using assms(6) by (intro never_found_no_sublist) simp
  then have "read_loop fuel (shd us) (rs @- at_eof) [] = None"
    using assms(4,5) by (intro read_loop_never)
  with assms(1-3) show ?thesis by (simp add: RunCommand_read_loop)
qed

lemma RunCommand_result_running:
  assumes "Running s" and "RunCommand fuel us s command = Some (res, s', us')"
  shows "res \<noteq> Inl NotRunningError"
proof (cases "shd (Stdin_outcomes s)")
  case (Some e)
  with assms show ?thesis by (auto simp: RunCommand_def Let_def)
next
  case None
  with assms show ?thesis
    using read_loop_result_kind[of fuel "shd us" "Stdout s" "[]"]
    by (auto simp: RunCommand_def Let_def split: option.splits)
qed

subsection \<open>The manager\<close>

lemma registry_ok_init: "registry_ok (NewSessionManager us sp)"
  by (simp add: registry_ok_def NewSessionManager_def)

lemma registry_ok_env:
  "registry_ok w \<Longrightarrow> registry_ok (w\<lparr>uuids := us, spawns := sp\<rparr>)"
  by (simp add: registry_ok_def)

lemma registry_ok_create:
  assumes "registry_ok w"
  shows "registry_ok (snd (CreateSession w))"
proof (cases "shd (spawns w)")
  case (Started win rout)
  have "registry_ok (w\<lparr>uuids := us, spawns := sp, heap := heap w @ [s],
           sessions := (sessions w)(i \<mapsto> length (heap w))\<rparr>)"
    if s: "Running s" for us sp s i
    unfolding registry_ok_def
  proof (intro allI impI)
    fix j p
    assume "sessions (w\<lparr>uuids := us, spawns := sp, heap := heap w @ [s],
           sessions := (sessions w)(i \<mapsto> length (heap w))\<rparr>) j = Some p"
    then have j: "(j = i \<and> p = length (heap w)) \<or> (j \<noteq> i \<and> sessions w j = Some p)"
      by (auto split: if_splits)
    have old: "q < length (heap w) \<and> Running (heap w ! q) \<and> (\<forall>k'. sessions w k' = Some q \<longrightarrow> k' = k)"
      if "sessions w k = Some q" for k q
      using assms that unfolding registry_ok_def by blast
    from j show "p < length (heap (w\<lparr>uuids := us, spawns := sp, heap := heap w @ [s],
                     sessions := (sessions w)(i \<mapsto> length (heap w))\<rparr>))
        \<and> Running (heap (w\<lparr>uuids := us, spawns := sp, heap := heap w @ [s],
                     sessions := (sessions w)(i \<mapsto> length (heap w))\<rparr>) ! p)
        \<and> (\<forall>ja. sessions (w\<lparr>uuids := us, spawns := sp, heap := heap w @ [s],
                     sessions := (sessions w)(i \<mapsto> length (heap w))\<rparr>) ja = Some p \<longrightarrow> ja = j)"
    proof
      assume "j = i \<and> p = length (heap w)"
      then show ?thesis using s old by (auto split: if_splits)
    next
      assume a: "j \<noteq> i \<and> sessions w j = Some p"
      with old[of j p] show ?thesis by (auto simp: nth_append split: if_splits)
    qed
  qed
  with Started show ?thesis
    by (simp add: CreateSession_def Let_def)
qed (use assms in \<open>simp_all add: CreateSession_def Let_def registry_ok_env\<close>)

lemma registry_ok_destroy:
  assumes "registry_ok w"
  shows "registry_ok (snd (EndSession w i))"
proof (cases "sessions w i")
  case None
  with assms show ?thesis by (simp add: EndSession_def)
next
  case (Some p)
  have "registry_ok (w\<lparr>heap := (heap w)[p := s'], sessions := (sessions w)(i := None)\<rparr>)" for s'
    using assms Some unfolding registry_ok_def
    by (auto simp: nth_list_update split: if_splits)
  with Some show ?thesis
    by (simp add: EndSession_def Let_def)
qed

lemma registry_ok_run:
  assumes "registry_ok w" "RunCommand_at fuel w p command = Some (res, w')"
  shows "registry_ok w'"
proof -
  from assms(2) obtain s' us' where
    r: "RunCommand fuel (uuids w) (heap w ! p) command = Some (res, s', us')"
    and w': "w' = w\<lparr>heap := (heap w)[p := s'], uuids := us'\<rparr>"
    by (auto simp: RunCommand_at_def split: option.splits)
  from r have run: "Running s' = Running (heap w ! p)"
    by (rule RunCommand_Running)
  show ?thesis
    unfolding registry_ok_def
  proof (intro allI impI)
    fix i q
    assume "sessions w' i = Some q"
    then have i: "sessions w i = Some q" by (simp add: w')
    with assms(1) have old: "q < length (heap w)" "Running (heap w ! q)"
      "\<forall>j. sessions w j = Some q \<longrightarrow> j = i"
      unfolding registry_ok_def by blast+
    have "Running (heap w' ! q)"
      using old(1,2) run by (cases "p = q") (simp_all add: w')
    with old show "q < length (heap w') \<and> Running (heap w' ! q)
        \<and> (\<forall>j. sessions w' j = Some q \<longrightarrow> j = i)"
      by (simp add: w')
  qed
qed

lemma reachable_registry_ok: "reachable w \<Longrightarrow> registry_ok w"
  by (induction rule: reachable.induct)
     (auto intro: registry_ok_init registry_ok_create registry_ok_destroy registry_ok_run)

lemma reachable_session_running:
  "reachable w \<Longrightarrow> sessions w i = Some p \<Longrightarrow> p < length (heap w) \<and> Running (heap w ! p)"
  using reachable_registry_ok[of w] by (simp add: registry_ok_def)

lemma reachable_ex_world1: "reachable ex_world1"
  unfolding ex_world1_def ex_world0_def by (intro reachable.create reachable.init)

lemma reachable_ex_world2: "reachable ex_world2"
  unfolding ex_world2_def by (intro reachable.destroy reachable_ex_world1)

lemma ex_world1_eq:
  "ex_world1 = \<lparr>sessions = [ex_marker1 \<mapsto> 0],
      heap = [\<lparr>ID = ex_marker1, Running = True, Stdin_written = [], Stdin_closed = False,
               Stdin_outcomes = sconst None, Stdout = at_eof, Killed = False\<rparr>],
      uuids = stl ex_uuids, spawns = sconst (Started (sconst None) at_eof)\<rparr>"
  by (simp add: ex_world1_def ex_world0_def CreateSession_def NewSessionManager_def ex_uuids_def)

lemma ex_world2_eq:
  "ex_world2 = \<lparr>sessions = Map.empty,
      heap = [\<lparr>ID = ex_marker1, Running = False, Stdin_written = [], Stdin_closed = True,
               Stdin_outcomes = sconst None, Stdout = at_eof, Killed = True\<rparr>],
      uuids = stl ex_uuids, spawns = sconst (Started (sconst None) at_eof)\<rparr>"
  by (simp add: ex_world2_def ex_world1_eq EndSession_def)

subsection \<open>The running check\<close>

text \<open>
  Claim C6. \<^verbatim>\<open>RunCommand\<close> fails with the not-running error exactly when the \<open>Running\<close> flag
  of the session is false on entry. In that case it fails at once, whatever the number of
  reads allowed: the session is returned as it was (nothing written to \<open>Stdin\<close>, nothing read
  from \<open>Stdout\<close>) and no UUID has been drawn.
\<close>

theorem RunCommand_not_running:
  "(RunCommand fuel us s command = Some (Inl NotRunningError, s', us'))
     = (\<not> Running s \<and> s' = s \<and> us' = us)"
proof (cases "Running s")
  case False
  then show ?thesis by (auto simp: RunCommand_def)
next
  case True
  then show ?thesis
    using RunCommand_result_running[of s fuel us command "Inl NotRunningError" s' us'] by auto
qed

theorem RunCommand_not_running_witness:
  "RunCommand 0 ex_uuids ((ex_session at_eof)\<lparr>Running := False\<rparr>) ''dir''
     = Some (Inl NotRunningError, (ex_session at_eof)\<lparr>Running := False\<rparr>, ex_uuids)"
  using RunCommand_not_running [of 0 ex_uuids "(ex_session at_eof)\<lparr>Running := False\<rparr>" "''dir''"
      "(ex_session at_eof)\<lparr>Running := False\<rparr>" ex_uuids]
  by simp

subsection \<open>After an I/O failure\<close>

text \<open>
  Claim C4 says that after a write or read failure the \<open>Running\<close> flag is false and the next
  call fails with the not-running error. The program has no assignment to \<open>Running\<close> on
  these paths. On a session whose pipe is broken the call fails with the write error and
  leaves \<open>Running\<close> true, and the same holds where the first read fails.
\<close>

theorem io_error_keeps_running_counterexample:
  "map_option fst (RunCommand 0 ex_uuids ex_broken_session ''dir'')
     = Some (Inl (WriteError ''broken pipe''))
   \<and> map_option (Running \<circ> fst \<circ> snd) (RunCommand 0 ex_uuids ex_broken_session ''dir'')
     = Some True
   \<and> map_option fst (RunCommand (Suc 0) ex_uuids ex_unreadable_session ''dir'')
     = Some (Inl (ReadError ''file already closed''))
   \<and> map_option (Running \<circ> fst \<circ> snd) (RunCommand (Suc 0) ex_uuids ex_unreadable_session ''dir'')
     = Some True"
  by (simp add: RunCommand_def ex_broken_session_def ex_unreadable_session_def ex_session_def
      loop_body_def Let_def)

text \<open>
  Claim C4 as amended. After \<^verbatim>\<open>RunCommand\<close> fails with a write or read error, the \<open>Running\<close>
  flag of the session is still true and the call has drawn one UUID. The next call on the
  session in the state the failure left it therefore does not fail with the not-running
  error: it draws a marker and attempts the write again. If that write fails it fails with
  the write error; otherwise the command, wrapped and carrying the new marker, is written
  and the read loop runs with that marker. Whatever that call returns, \<open>Running\<close> is still
  true after it.
\<close>

theorem next_call_after_io_error:
  assumes "RunCommand fuel us s command = Some (Inl e, s', us')"
    and "e = WriteError m \<or> e = ReadError m"
  shows "Running s' \<and> us' = stl us
    \<and> (\<forall>fuel' us2 command'.
          (\<forall>e'. shd (Stdin_outcomes s') = Some e' \<longrightarrow>
              RunCommand fuel' us2 s' command'
                = Some (Inl (WriteError e'), s'\<lparr>Stdin_outcomes := stl (Stdin_outcomes s')\<rparr>, stl us2))
        \<and> (shd (Stdin_outcomes s') = None \<longrightarrow>
              RunCommand fuel' us2 s' command'
                = map_option
                    (\<lambda>x. (fst x,
                          s'\<lparr>Stdin_written := Stdin_written s' @
                                 [''& { '' @ command' @ '' } *>&1 | Out-String; Write-Host ''
                                    @ [CHR 0x27] @ shd us2 @ [CHR 0x27, CHR 0x0A]],
                             Stdin_outcomes := stl (Stdin_outcomes s'), Stdout := snd x\<rparr>,
                          stl us2))
                    (read_loop fuel' (shd us2) (Stdout s') []))
        \<and> (\<forall>r. RunCommand fuel' us2 s' command' = Some r \<longrightarrow>
              fst r \<noteq> Inl NotRunningError \<and> Running (fst (snd r))))"
proof -
  have r: "Running s"
    using assms by (auto simp: RunCommand_def split: if_splits)
  with assms(1) have r': "Running s'"
    using RunCommand_Running by blast
  have u: "us' = stl us"
    using assms(1) r by (auto simp: RunCommand_def Let_def split: option.splits)
  have a: "RunCommand fuel' us2 s' command'
      = Some (Inl (WriteError e'), s'\<lparr>Stdin_outcomes := stl (Stdin_outcomes s')\<rparr>, stl us2)"
    if "shd (Stdin_outcomes s') = Some e'" for fuel' us2 command' e'
    using r' that by (simp add: RunCommand_def Let_def)
  have b: "RunCommand fuel' us2 s' command'
      = map_option
          (\<lambda>x. (fst x,
                s'\<lparr>Stdin_written := Stdin_written s' @
                       [''& { '' @ command' @ '' } *>&1 | Out-String; Write-Host ''
                          @ [CHR 0x27] @ shd us2 @ [CHR 0x27, CHR 0x0A]],
                   Stdin_outcomes := stl (Stdin_outcomes s'), Stdout := snd x\<rparr>,
                stl us2))
          (read_loop fuel' (shd us2) (Stdout s') [])"
    if "shd (Stdin_outcomes s') = None" for fuel' us2 command'
    using r' that by (simp add: RunCommand_read_loop after_command_def fullCommand_def)
  have c: "fst x \<noteq> Inl NotRunningError \<and> Running (fst (snd x))"
    if "RunCommand fuel' us2 s' command' = Some x" for fuel' us2 command' x
  proof -
    from that have x: "RunCommand fuel' us2 s' command' = Some (fst x, fst (snd x), snd (snd x))"
      by simp
    from RunCommand_result_running[OF r' x] RunCommand_Running[OF x] r'
    show ?thesis by simp
  qed
  from r' u a b c show ?thesis by blast
qed

theorem next_call_after_io_error_witness:
  "RunCommand (Suc 0) ex_uuids ex_flaky_session ''dir''
     = Some (Inl (ReadError ''i/o timeout''),
             ex_flaky_session
               \<lparr>Stdin_written := [''& { dir } *>&1 | Out-String; Write-Host ''
                                   @ [CHR 0x27] @ ex_marker1 @ [CHR 0x27, CHR 0x0A]],
                Stdout := ex_second_read ## at_eof\<rparr>,
             stl ex_uuids)
   \<and> Running (ex_flaky_session
               \<lparr>Stdin_written := [''& { dir } *>&1 | Out-String; Write-Host ''
                                   @ [CHR 0x27] @ ex_marker1 @ [CHR 0x27, CHR 0x0A]],
                Stdout := ex_second_read ## at_eof\<rparr>)
   \<and> RunCommand (Suc 0) (stl ex_uuids)
        (ex_flaky_session
               \<lparr>Stdin_written := [''& { dir } *>&1 | Out-String; Write-Host ''
                                   @ [CHR 0x27] @ ex_marker1 @ [CHR 0x27, CHR 0x0A]],
                Stdout := ex_second_read ## at_eof\<rparr>)
        ''echo echoed''
     = Some (Inr (''echoed '' @ ex_marker1),
             ex_flaky_session
               \<lparr>Stdin_written := [''& { dir } *>&1 | Out-String; Write-Host ''
                                   @ [CHR 0x27] @ ex_marker1 @ [CHR 0x27, CHR 0x0A],
                                 ''& { echo echoed } *>&1 | Out-String; Write-Host ''
                                   @ [CHR 0x27] @ ex_marker2 @ [CHR 0x27, CHR 0x0A]],
                Stdout := at_eof\<rparr>,
             stl (stl ex_uuids))
   \<and> RunCommand 0 ex_uuids ex_broken_session ''dir''
     = Some (Inl (WriteError ''broken pipe''), ex_broken_session, stl ex_uuids)
   \<and> RunCommand 0 (stl ex_uuids) ex_broken_session ''dir''
     = Some (Inl (WriteError ''broken pipe''), ex_broken_session, stl (stl ex_uuids))"
proof -
  let ?s1 = "ex_flaky_session
               \<lparr>Stdin_written := [''& { dir } *>&1 | Out-String; Write-Host ''
                                   @ [CHR 0x27] @ ex_marker1 @ [CHR 0x27, CHR 0x0A]],
                Stdout := ex_second_read ## at_eof\<rparr>"
  have 1: "RunCommand (Suc 0) ex_uuids ex_flaky_session ''dir''
     = Some (Inl (ReadError ''i/o timeout''), ?s1, stl ex_uuids)"
    by (simp add: RunCommand_def ex_flaky_session_def ex_session_def ex_uuids_def
        loop_body_def fullCommand_def Let_def)
  note t = next_call_after_io_error [OF 1 disjI2 [OF refl]]
  have w: "shd (Stdin_outcomes ?s1) = None"
    by (simp add: ex_flaky_session_def ex_session_def)
  have l: "read_loop (Suc 0) (shd (stl ex_uuids)) (Stdout ?s1) []
      = Some (Inr (''echoed '' @ ex_marker1), at_eof)"
    by (simp add: ex_uuids_def ex_second_read_def ex_marker1_def ex_marker2_def
        loop_body_def scan_new_def find_marker_def strip_newline_def Let_def)
  from t w have "RunCommand (Suc 0) (stl ex_uuids) ?s1 ''echo echoed''
      = map_option
          (\<lambda>x. (fst x,
                ?s1\<lparr>Stdin_written := Stdin_written ?s1 @
                       [''& { '' @ ''echo echoed'' @ '' } *>&1 | Out-String; Write-Host ''
                          @ [CHR 0x27] @ shd (stl ex_uuids) @ [CHR 0x27, CHR 0x0A]],
                   Stdin_outcomes := stl (Stdin_outcomes ?s1), Stdout := snd x\<rparr>,
                stl (stl ex_uuids)))
          (read_loop (Suc 0) (shd (stl ex_uuids)) (Stdout ?s1) [])"
    by blast
  then have 2: "RunCommand (Suc 0) (stl ex_uuids) ?s1 ''echo echoed''
     = Some (Inr (''echoed '' @ ex_marker1),
             ex_flaky_session
               \<lparr>Stdin_written := [''& { dir } *>&1 | Out-String; Write-Host ''
                                   @ [CHR 0x27] @ ex_marker1 @ [CHR 0x27, CHR 0x0A],
                                 ''& { echo echoed } *>&1 | Out-String; Write-Host ''
                                   @ [CHR 0x27] @ ex_marker2 @ [CHR 0x27, CHR 0x0A]],
                Stdout := at_eof\<rparr>,
             stl (stl ex_uuids))"
    unfolding l by (simp add: ex_flaky_session_def ex_session_def ex_uuids_def)
  have 3: "RunCommand 0 ex_uuids ex_broken_session ''dir''
     = Some (Inl (WriteError ''broken pipe''), ex_broken_session, stl ex_uuids)"
    by (simp add: RunCommand_def ex_broken_session_def ex_session_def)
  have "shd (Stdin_outcomes ex_broken_session) = Some ''broken pipe''"
    "ex_broken_session\<lparr>Stdin_outcomes := stl (Stdin_outcomes ex_broken_session)\<rparr> = ex_broken_session"
    by (simp_all add: ex_broken_session_def ex_session_def)
  note b = this
  from next_call_after_io_error [OF 3 disjI1 [OF refl]]
  have "\<forall>e'. shd (Stdin_outcomes ex_broken_session) = Some e' \<longrightarrow>
      RunCommand 0 (stl ex_uuids) ex_broken_session ''dir''
        = Some (Inl (WriteError e'),
                ex_broken_session\<lparr>Stdin_outcomes := stl (Stdin_outcomes ex_broken_session)\<rparr>,
                stl (stl ex_uuids))"
    by blast
  then have 4: "RunCommand 0 (stl ex_uuids) ex_broken_session ''dir''
     = Some (Inl (WriteError ''broken pipe''), ex_broken_session, stl (stl ex_uuids))"
    unfolding b by simp
  show ?thesis
    by (intro conjI 1 2 3 4 t[THEN conjunct1])
qed

subsection \<open>The result when the marker is found\<close>

text \<open>
  Claim C5. When the search of \<^verbatim>\<open>RunCommand\<close> finds the marker, at offset \<open>i\<close> of the buffer,
  the result is the bytes before that offset with exactly one trailing line terminator
  (CRLF, LF or CR) taken off if there is one, and those bytes unchanged otherwise:
  the two \<^verbatim>\<open>if\<close> statements of the program compute \<open>strip_one_terminator\<close>, the trimming in
  the words of the specification, and nothing else is done to the bytes.
\<close>

theorem marker_found_result:
  assumes "Running s" and "shd (Stdin_outcomes s) = None"
    and "Stdout s = (rs @ [r]) @- rest"
    and "no_failure (rs @ [r])" and "never_found (shd us) [] rs"
    and "length (received rs) \<le> 1024 * 1024"
    and "scan_new (shd us) (received rs) (fst r) = Some i"
  shows "RunCommand (Suc (length rs + k)) us s command
      = Some (Inr (strip_one_terminator (take i (received (rs @ [r])))),
              after_command s command (shd us) rest, stl us)"
proof -
  have nf: "no_failure rs" "\<not> is_failure (snd r)"
    using assms(4) by (simp_all add: no_failure_def)
  have "loop_body (shd us) (received rs) r
      = Return (Inr (strip_newline (take i (received rs @ fst r))))"
    using loop_body_cases[of r "shd us" "received rs"] nf(2) assms(7) by auto
  then have "read_loop (Suc (length rs + k)) (shd us) ((rs @ [r]) @- rest) []
      = Some (Inr (strip_newline (take i (received rs @ fst r))), rest)"
    using nf(1) assms(5,6) by (intro read_loop_prefix_then)
  then show ?thesis
    using assms(1-3)
    by (simp add: RunCommand_read_loop strip_newline_spec received_append received_single)
qed

theorem marker_found_result_witness:
  "RunCommand (Suc (Suc 0)) ex_uuids (ex_session (ex_whole_reads @- at_eof)) ''echo 123xxx''
     = Some (Inr ''123xxx'',
             after_command (ex_session (ex_whole_reads @- at_eof)) ''echo 123xxx'' ex_marker1 at_eof,
             stl ex_uuids)"
proof -
  let ?r = "(''xxx'' @ [CHR 0x0D, CHR 0x0A] @ ex_marker1 @ [CHR 0x0A], err_nil)"
  have 1: "Running (ex_session (ex_whole_reads @- at_eof))"
    and 2: "shd (Stdin_outcomes (ex_session (ex_whole_reads @- at_eof))) = None"
    and 3: "Stdout (ex_session (ex_whole_reads @- at_eof)) = ([(''123'', err_nil)] @ [?r]) @- at_eof"
    by (simp_all add: ex_session_def ex_whole_reads_def)
  have 4: "no_failure ([(''123'', err_nil)] @ [?r])"
    by (simp add: no_failure_def is_failure_def)
  have 5: "never_found (shd ex_uuids) [] [(''123'', err_nil)]"
    by (simp add: ex_uuids_def ex_marker1_def scan_new_def)
  have 6: "length (received [(''123'', err_nil)]) \<le> 1024 * 1024"
    by (simp add: received_def)
  have 7: "scan_new (shd ex_uuids) (received [(''123'', err_nil)]) (fst ?r) = Some 8"
    by (simp add: ex_uuids_def ex_marker1_def scan_new_def find_marker_def received_def)
  show ?thesis
    using marker_found_result [OF 1 2 3 4 5 6 7, of 0 "''echo 123xxx''"]
    by (simp add: received_def strip_one_terminator_def ex_uuids_def ex_marker1_def suffix_def)
qed


subsection \<open>The size ceiling\<close>

text \<open>
  Claim C2. When the buffer grows beyond 1024 * 1024 bytes and the search has found no marker
  up to and including the read that takes it there, \<^verbatim>\<open>RunCommand\<close> stops at that read (the
  reads after it are left in the pipe) and returns all the bytes accumulated, as a result
  and not as an error.
\<close>

theorem ceiling_result:
  assumes "Running s" and "shd (Stdin_outcomes s) = None"
    and "Stdout s = (rs @ [r]) @- rest"
    and "no_failure (rs @ [r])" and "never_found (shd us) [] (rs @ [r])"
    and "length (received rs) \<le> 1024 * 1024"
    and "length (received (rs @ [r])) > 1024 * 1024"
  shows "RunCommand (Suc (length rs + k)) us s command
      = Some (Inr (received (rs @ [r])), after_command s command (shd us) rest, stl us)"
proof -
  have nf: "no_failure rs" "\<not> is_failure (snd r)"
    using assms(4) by (simp_all add: no_failure_def)
  have sc: "never_found (shd us) [] rs" "scan_new (shd us) (received rs) (fst r) = None"
    using assms(5) by (simp_all add: never_found_append)
  have "loop_body (shd us) (received rs) r = Return (Inr (received rs @ fst r))"
    using loop_body_cases[of r "shd us" "received rs"] nf(2) sc(2) assms(7)
    by (auto simp: received_append received_single)
  then have "read_loop (Suc (length rs + k)) (shd us) ((rs @ [r]) @- rest) []
      = Some (Inr (received rs @ fst r), rest)"
    using nf(1) sc(1) assms(6) by (intro read_loop_prefix_then)
  then show ?thesis
    using assms(1-3)
    by (simp add: RunCommand_read_loop received_append received_single)
qed


theorem ceiling_result_witness:
  "RunCommand (Suc (1024 + 0)) ex_uuids ex_flood_session ''while (1) { 'a' * 1024 }''
     = Some (Inr (received (replicate 1024 ex_chunk @ [ex_chunk])),
             after_command ex_flood_session ''while (1) { 'a' * 1024 }'' ex_marker1 (sconst ex_chunk),
             stl ex_uuids)
   \<and> length (received (replicate 1024 ex_chunk @ [ex_chunk])) = 1049600"
proof -
  have 1: "Running ex_flood_session"
    and 2: "shd (Stdin_outcomes ex_flood_session) = None"
    by (simp_all add: ex_flood_session_def ex_session_def)
  have "(replicate 1024 ex_chunk @ [ex_chunk]) @- sconst ex_chunk
      = replicate (Suc 1024) ex_chunk @- sconst ex_chunk"
    by (simp only: replicate_append_same replicate_Suc)
  also have "\<dots> = sconst ex_chunk"
    by (rule shift_replicate_sconst)
  finally have 3: "Stdout ex_flood_session = (replicate 1024 ex_chunk @ [ex_chunk]) @- sconst ex_chunk"
    by (simp add: ex_flood_session_def ex_session_def)
  have 4: "no_failure (replicate 1024 ex_chunk @ [ex_chunk])"
    by (simp add: no_failure_def is_failure_def ex_chunk_def list_all_iff)
  have 5: "never_found (shd ex_uuids) [] (replicate 1024 ex_chunk @ [ex_chunk])"
    by (rule never_found_absent [where A = "{CHR ''a''}"])
       (auto simp: ex_uuids_def ex_marker1_def ex_chunk_def)
  have 6: "length (received (replicate 1024 ex_chunk)) \<le> 1024 * 1024"
    by (simp add: received_def ex_chunk_def length_concat sum_list_replicate)
  have 8: "length (received (replicate 1024 ex_chunk @ [ex_chunk])) = 1049600"
    by (simp add: received_def ex_chunk_def length_concat sum_list_replicate)
  then have 7: "length (received (replicate 1024 ex_chunk @ [ex_chunk])) > 1024 * 1024"
    by simp
  show ?thesis
    using ceiling_result [OF 1 2 3 4 5 6 7, of 0 "''while (1) { 'a' * 1024 }''"] 8
    by (simp add: ex_uuids_def)
qed



subsection \<open>The ways out of the call\<close>

text \<open>
  Claim C3 says that \<^verbatim>\<open>RunCommand\<close> returns only when the marker is found or the buffer
  passes 1024 * 1024 bytes. The loop has a third way out: a read that fails with an error
  other than \<^verbatim>\<open>io.EOF\<close> makes the call return the read error at once. Here the process
  prints \<^verbatim>\<open>hello\<close> and the next read fails: the call returns after two reads, although
  the search has found no marker and the buffer holds five bytes.
\<close>

theorem read_error_exit_counterexample:
  "map_option fst (RunCommand (Suc (Suc 0)) ex_uuids ex_read_error_session ''dir'')
     = Some (Inl (ReadError ''read |0: file already closed''))
   \<and> scan_new (shd ex_uuids) [] ''hello'' = None
   \<and> scan_new (shd ex_uuids) ''hello'' [] = None
   \<and> length ''hello'' < 1024 * 1024"
  by (simp add: RunCommand_def ex_read_error_session_def ex_session_def ex_uuids_def ex_marker1_def
      loop_body_def scan_new_def Let_def)

text \<open>
  Claim C3 as amended. \<^verbatim>\<open>RunCommand\<close> returns only in these cases: at once when the session
  is not running; when the write fails; and, in the read loop, at a read that fails with
  an error other than \<^verbatim>\<open>io.EOF\<close>, at a read that delivers bytes among which the marker is
  found, or at a read that delivers bytes which take the buffer beyond 1024 * 1024. A read
  of no bytes with \<^verbatim>\<open>io.EOF\<close> is never the read at which it returns. So when the stream
  ends (every further read gives no bytes and \<^verbatim>\<open>io.EOF\<close>) after reads none of which
  failed, with no marker found and the buffer within the ceiling, the loop runs for ever:
  no number of reads yields a result.
\<close>

theorem RunCommand_exits:
  "(RunCommand fuel us s command = Some (res, s', us') \<longrightarrow>
      (\<not> Running s \<and> res = Inl NotRunningError)
      \<or> (Running s \<and> (\<exists>e. shd (Stdin_outcomes s) = Some e \<and> res = Inl (WriteError e)))
      \<or> (Running s \<and> shd (Stdin_outcomes s) = None
          \<and> (\<exists>rs r. Stdout s = (rs @ [r]) @- Stdout s' \<and> no_failure rs
                \<and> never_found (shd us) [] rs \<and> length (received rs) \<le> 1024 * 1024
                \<and> r \<noteq> ([], io_EOF)
                \<and> ((\<exists>e. snd r = io_failure e \<and> res = Inl (ReadError e))
                   \<or> (\<not> is_failure (snd r) \<and> fst r \<noteq> []
                       \<and> (\<exists>i. scan_new (shd us) (received rs) (fst r) = Some i
                              \<and> res = Inr (strip_newline (take i (received (rs @ [r]))))))
                   \<or> (\<not> is_failure (snd r) \<and> fst r \<noteq> []
                       \<and> scan_new (shd us) (received rs) (fst r) = None
                       \<and> length (received (rs @ [r])) > 1024 * 1024
                       \<and> res = Inr (received (rs @ [r])))))))
   \<and> (Running s \<and> shd (Stdin_outcomes s) = None \<and> Stdout s = pre @- at_eof \<and> no_failure pre
        \<and> never_found (shd us) [] pre \<and> length (received pre) \<le> 1024 * 1024
      \<longrightarrow> (\<forall>fuel'. RunCommand fuel' us s command = None))"
proof (intro conjI impI allI)
  fix fuel'
  assume "Running s \<and> shd (Stdin_outcomes s) = None \<and> Stdout s = pre @- at_eof \<and> no_failure pre
      \<and> never_found (shd us) [] pre \<and> length (received pre) \<le> 1024 * 1024"
  then show "RunCommand fuel' us s command = None"
    by (simp add: RunCommand_read_loop read_loop_never)
next
  assume a: "RunCommand fuel us s command = Some (res, s', us')"
  let ?loop = "\<exists>rs r. Stdout s = (rs @ [r]) @- Stdout s' \<and> no_failure rs
                \<and> never_found (shd us) [] rs \<and> length (received rs) \<le> 1024 * 1024
                \<and> r \<noteq> ([], io_EOF)
                \<and> ((\<exists>e. snd r = io_failure e \<and> res = Inl (ReadError e))
                   \<or> (\<not> is_failure (snd r) \<and> fst r \<noteq> []
                       \<and> (\<exists>i. scan_new (shd us) (received rs) (fst r) = Some i
                              \<and> res = Inr (strip_newline (take i (received (rs @ [r]))))))
                   \<or> (\<not> is_failure (snd r) \<and> fst r \<noteq> []
                       \<and> scan_new (shd us) (received rs) (fst r) = None
                       \<and> length (received (rs @ [r])) > 1024 * 1024
                       \<and> res = Inr (received (rs @ [r]))))"
  show "(\<not> Running s \<and> res = Inl NotRunningError)
      \<or> (Running s \<and> (\<exists>e. shd (Stdin_outcomes s) = Some e \<and> res = Inl (WriteError e)))
      \<or> (Running s \<and> shd (Stdin_outcomes s) = None \<and> ?loop)"
  proof (cases "Running s")
    case False
    with a show ?thesis by (simp add: RunCommand_def)
  next
    case run: True
    show ?thesis
    proof (cases "shd (Stdin_outcomes s)")
      case (Some e)
      with a run show ?thesis by (simp add: RunCommand_def Let_def)
    next
      case None
      from a run None obtain rest where
        l: "read_loop fuel (shd us) (Stdout s) [] = Some (res, rest)" and s': "Stdout s' = rest"
        by (auto simp: RunCommand_read_loop after_command_def)
      from read_loop_returns[OF l] obtain rs r where
        r: "Stdout s = (rs @ [r]) @- rest" "no_failure rs" "never_found (shd us) [] rs"
          "length (received rs) \<le> 1024 * 1024"
          "loop_body (shd us) (received rs) r = Return res"
        by auto
      have e: "received (rs @ [r]) = received rs @ fst r"
        by (simp add: received_append received_single)
      from r(5) loop_body_cases[of r "shd us" "received rs"]
      have d: "(\<exists>e. snd r = io_failure e \<and> res = Inl (ReadError e))
           \<or> (\<not> is_failure (snd r)
               \<and> (\<exists>i. scan_new (shd us) (received rs) (fst r) = Some i
                      \<and> res = Inr (strip_newline (take i (received (rs @ [r]))))))
           \<or> (\<not> is_failure (snd r)
               \<and> scan_new (shd us) (received rs) (fst r) = None
               \<and> length (received (rs @ [r])) > 1024 * 1024
               \<and> res = Inr (received (rs @ [r])))"
        unfolding e by auto
      have ne: "fst r \<noteq> []" if "\<not> is_failure (snd r)"
      proof
        assume "fst r = []"
        with d that r(4) show False
          unfolding e by (auto simp: scan_new_def is_failure_def)
      qed
      have "r \<noteq> ([], io_EOF)"
      proof
        assume "r = ([], io_EOF)"
        with ne show False by (simp add: is_failure_def)
      qed
      with r(1-4) d ne s' have ?loop by blast
      with run None show ?thesis by blast
    qed
  qed
qed

theorem RunCommand_exits_witness:
  "RunCommand (Suc (Suc 0)) ex_uuids (ex_session (ex_whole_reads @- at_eof)) ''echo 123xxx''
       = Some (Inr ''123xxx'',
            after_command (ex_session (ex_whole_reads @- at_eof)) ''echo 123xxx'' ex_marker1 at_eof,
            stl ex_uuids)
   \<and> (\<exists>rs r. Stdout (ex_session (ex_whole_reads @- at_eof)) = (rs @ [r]) @- at_eof
          \<and> no_failure rs \<and> never_found ex_marker1 [] rs \<and> length (received rs) \<le> 1024 * 1024
          \<and> r \<noteq> ([], io_EOF)
          \<and> ((\<exists>e. snd r = io_failure e \<and> Inr ''123xxx'' = (Inl (ReadError e) :: error + string))
             \<or> (\<not> is_failure (snd r) \<and> fst r \<noteq> []
                 \<and> (\<exists>i. scan_new ex_marker1 (received rs) (fst r) = Some i
                        \<and> (Inr ''123xxx'' :: error + string)
                           = Inr (strip_newline (take i (received (rs @ [r]))))))
             \<or> (\<not> is_failure (snd r) \<and> fst r \<noteq> []
                 \<and> scan_new ex_marker1 (received rs) (fst r) = None
                 \<and> length (received (rs @ [r])) > 1024 * 1024
                 \<and> (Inr ''123xxx'' :: error + string) = Inr (received (rs @ [r])))))
   \<and> (\<forall>fuel. RunCommand fuel ex_uuids ex_short_session ''echo hello; exit'' = None)"
proof -
  let ?s = "ex_session (ex_whole_reads @- at_eof)"
  let ?s' = "after_command ?s ''echo 123xxx'' ex_marker1 at_eof"
  have h: "Running ex_short_session \<and> shd (Stdin_outcomes ex_short_session) = None
      \<and> Stdout ex_short_session = [(''hello'', err_nil)] @- at_eof
      \<and> no_failure [(''hello'', err_nil)]
      \<and> never_found (shd ex_uuids) [] [(''hello'', err_nil)]
      \<and> length (received [(''hello'', err_nil)]) \<le> 1024 * 1024"
    by (simp add: ex_short_session_def ex_session_def no_failure_def is_failure_def
        ex_uuids_def ex_marker1_def scan_new_def received_def)
  have r: "RunCommand (Suc (Suc 0)) ex_uuids ?s ''echo 123xxx'' = Some (Inr ''123xxx'', ?s', stl ex_uuids)"
    by (simp add: RunCommand_def ex_session_def ex_whole_reads_def ex_uuids_def ex_marker1_def
        after_command_def loop_body_def scan_new_def find_marker_def strip_newline_def Let_def)
  have p: "Running ?s" "shd (Stdin_outcomes ?s) = None" "Stdout ?s' = at_eof" "shd ex_uuids = ex_marker1"
    by (simp_all add: ex_session_def after_command_def ex_uuids_def)
  note t1 = RunCommand_exits [where s = ex_short_session and pre = "[(''hello'', err_nil)]"
      and us = ex_uuids and command = "''echo hello; exit''"
      and fuel = 0 and res = "Inl NotRunningError" and s' = ex_short_session and us' = ex_uuids]
  note t2 = RunCommand_exits [where s = ?s and pre = "[]" and us = ex_uuids
      and command = "''echo 123xxx''" and fuel = "Suc (Suc 0)" and res = "Inr ''123xxx''"
      and s' = ?s' and us' = "stl ex_uuids"]
  from t1 h have a: "\<forall>fuel. RunCommand fuel ex_uuids ex_short_session ''echo hello; exit'' = None"
    by blast
  from t2 r p(1,2) have
    "\<exists>rs r. Stdout ?s = (rs @ [r]) @- Stdout ?s'
          \<and> no_failure rs \<and> never_found (shd ex_uuids) [] rs \<and> length (received rs) \<le> 1024 * 1024
          \<and> r \<noteq> ([], io_EOF)
          \<and> ((\<exists>e. snd r = io_failure e \<and> Inr ''123xxx'' = (Inl (ReadError e) :: error + string))
             \<or> (\<not> is_failure (snd r) \<and> fst r \<noteq> []
                 \<and> (\<exists>i. scan_new (shd ex_uuids) (received rs) (fst r) = Some i
                        \<and> (Inr ''123xxx'' :: error + string)
                           = Inr (strip_newline (take i (received (rs @ [r]))))))
             \<or> (\<not> is_failure (snd r) \<and> fst r \<noteq> []
                 \<and> scan_new (shd ex_uuids) (received rs) (fst r) = None
                 \<and> length (received (rs @ [r])) > 1024 * 1024
                 \<and> (Inr ''123xxx'' :: error + string) = Inr (received (rs @ [r]))))"
    by blast
  with r a show ?thesis
    unfolding p(3,4) by blast
qed

subsection \<open>A marker that arrives in two reads\<close>

text \<open>
  Claim C1 says that the loop finds the marker whenever it occurs in the buffer, also when
  it is split across two reads. The search of the program starts at \<^verbatim>\<open>len(output) - n\<close>,
  the first new byte, so a marker that begins in an earlier read is never compared. Here
  the process writes \<^verbatim>\<open>hello\<close>, CRLF, the marker and CRLF, the first read ends inside the
  marker, and the process then exits: the buffer holds the marker and the call never
  returns.
\<close>

theorem split_marker_never_found:
  "received ex_split_reads = ''hello'' @ [CHR 0x0D, CHR 0x0A] @ ex_marker1 @ [CHR 0x0D, CHR 0x0A]
   \<and> (\<forall>fuel. RunCommand fuel ex_uuids (ex_session (ex_split_reads @- at_eof)) ''echo hello'' = None)"
proof -
  have 1: "no_failure ex_split_reads"
    by (simp add: no_failure_def is_failure_def ex_split_reads_def)
  have 2: "never_found (shd ex_uuids) [] ex_split_reads"
    by (simp add: ex_split_reads_def ex_uuids_def ex_marker1_def scan_new_def find_marker_def)
  have 3: "length (received ex_split_reads) \<le> 1024 * 1024"
    by (simp add: ex_split_reads_def received_def ex_marker1_def)
  have 4: "received ex_split_reads
      = ''hello'' @ [CHR 0x0D, CHR 0x0A] @ ex_marker1 @ [CHR 0x0D, CHR 0x0A]"
    by (simp add: ex_split_reads_def received_def ex_marker1_def)
  have "RunCommand fuel ex_uuids (ex_session (ex_split_reads @- at_eof)) ''echo hello'' = None"
    for fuel
    using read_loop_never [OF 1 2 3, of fuel]
    by (simp add: RunCommand_read_loop ex_session_def)
  with 4 show ?thesis by blast
qed

subsection \<open>Ending a session\<close>

text \<open>
  Claim C7. In every state the service can get into, \<^verbatim>\<open>EndSession\<close> fails with the not-found
  error exactly when the identifier is not in the map, it has no other failure, and then
  the state is unchanged. Otherwise it succeeds: the session that the identifier pointed to
  has its input stream closed, its process killed and \<open>Running\<close> false, no other session
  is touched, the identifier is removed from the map and no other identifier is, and a
  lookup of the identifier afterwards finds nothing.
\<close>

theorem EndSession_result:
  assumes "reachable w"
  shows "((fst (EndSession w i) = Some (NotFoundError i)) = (sessions w i = None))
    \<and> (fst (EndSession w i) = None \<or> fst (EndSession w i) = Some (NotFoundError i))
    \<and> (sessions w i = None \<longrightarrow> snd (EndSession w i) = w)
    \<and> (\<forall>p. sessions w i = Some p \<longrightarrow>
          fst (EndSession w i) = None
          \<and> heap (snd (EndSession w i))
              = (heap w)[p := (heap w ! p)\<lparr>Stdin_closed := True, Killed := True, Running := False\<rparr>]
          \<and> Stdin_closed (heap (snd (EndSession w i)) ! p)
          \<and> Killed (heap (snd (EndSession w i)) ! p)
          \<and> \<not> Running (heap (snd (EndSession w i)) ! p)
          \<and> sessions (snd (EndSession w i)) = (sessions w)(i := None)
          \<and> GetSession (snd (EndSession w i)) i = None)"
proof (cases "sessions w i")
  case None
  then show ?thesis by (simp add: EndSession_def)
next
  case (Some p)
  with assms have "p < length (heap w)" "Running (heap w ! p)"
    using reachable_session_running by blast+
  with Some show ?thesis
    by (simp add: EndSession_def Let_def GetSession_def)
qed

theorem EndSession_result_witness:
  "reachable ex_world1 \<and> sessions ex_world1 ex_marker1 = Some 0
   \<and> fst (EndSession ex_world1 ex_marker1) = None
   \<and> Stdin_closed (heap ex_world2 ! 0) \<and> Killed (heap ex_world2 ! 0)
   \<and> \<not> Running (heap ex_world2 ! 0)
   \<and> GetSession ex_world2 ex_marker1 = None
   \<and> reachable ex_world2
   \<and> fst (EndSession ex_world2 ex_marker1) = Some (NotFoundError ex_marker1)
   \<and> snd (EndSession ex_world2 ex_marker1) = ex_world2"
proof -
  have 1: "sessions ex_world1 ex_marker1 = Some 0"
    by (simp add: ex_world1_eq)
  have 2: "sessions ex_world2 ex_marker1 = None"
    by (simp add: ex_world2_eq)
  have a: "fst (EndSession ex_world1 ex_marker1) = None
      \<and> Stdin_closed (heap (snd (EndSession ex_world1 ex_marker1)) ! 0)
      \<and> Killed (heap (snd (EndSession ex_world1 ex_marker1)) ! 0)
      \<and> \<not> Running (heap (snd (EndSession ex_world1 ex_marker1)) ! 0)
      \<and> GetSession (snd (EndSession ex_world1 ex_marker1)) ex_marker1 = None"
    using EndSession_result [OF reachable_ex_world1, of ex_marker1] 1 by blast
  have b: "fst (EndSession ex_world2 ex_marker1) = Some (NotFoundError ex_marker1)
      \<and> snd (EndSession ex_world2 ex_marker1) = ex_world2"
    using EndSession_result [OF reachable_ex_world2, of ex_marker1] 2 by blast
  from a have "fst (EndSession ex_world1 ex_marker1) = None
      \<and> Stdin_closed (heap ex_world2 ! 0) \<and> Killed (heap ex_world2 ! 0)
      \<and> \<not> Running (heap ex_world2 ! 0) \<and> GetSession ex_world2 ex_marker1 = None"
    by (simp add: ex_world2_def)
  with b 1 reachable_ex_world1 reachable_ex_world2 show ?thesis by blast
qed

subsection \<open>Sessions in the map are running\<close>

text \<open>
  Claim C8 says that the not-running branch of \<^verbatim>\<open>RunCommand\<close> cannot be reached through
  create, lookup, destroy and run. A caller that holds the pointer from \<^verbatim>\<open>CreateSession\<close>
  or \<^verbatim>\<open>GetSession\<close> still holds it after \<^verbatim>\<open>EndSession\<close>: create a session, look it up, end
  it, and run a command on the pointer; the call fails with the not-running error.
\<close>

theorem stale_pointer_not_running_counterexample:
  "reachable ex_world2
   \<and> fst (CreateSession ex_world0) = Inr 0
   \<and> GetSession ex_world1 ex_marker1 = Some 0
   \<and> fst (EndSession ex_world1 ex_marker1) = None
   \<and> map_option fst (RunCommand_at 0 ex_world2 0 ''dir'') = Some (Inl NotRunningError)"
proof -
  have "fst (CreateSession ex_world0) = Inr 0"
    by (simp add: ex_world0_def CreateSession_def NewSessionManager_def Let_def)
  moreover have "GetSession ex_world1 ex_marker1 = Some 0"
    by (simp add: GetSession_def ex_world1_eq)
  moreover have "fst (EndSession ex_world1 ex_marker1) = None"
    by (simp add: EndSession_def ex_world1_eq)
  moreover have "map_option fst (RunCommand_at 0 ex_world2 0 ''dir'') = Some (Inl NotRunningError)"
    by (simp add: RunCommand_at_def RunCommand_def ex_world2_eq)
  ultimately show ?thesis
    using reachable_ex_world2 by simp
qed

text \<open>
  Claim C8 as amended. In every state the service can get into, every session in the map
  has \<open>Running\<close> true, so the session that a lookup returns is running at that moment and
  \<^verbatim>\<open>RunCommand\<close> on it in that state never fails with the not-running error; a pointer on
  which \<^verbatim>\<open>RunCommand\<close> does fail with it is one that the map no longer holds.
\<close>

theorem registry_sessions_running:
  assumes "reachable w" and "GetSession w i = Some p"
  shows "p < length (heap w) \<and> Running (heap w ! p)
    \<and> (\<forall>fuel command r. RunCommand_at fuel w p command = Some r \<longrightarrow> fst r \<noteq> Inl NotRunningError)
    \<and> (\<forall>fuel command q w'. RunCommand_at fuel w q command = Some (Inl NotRunningError, w')
          \<longrightarrow> q \<notin> ran (sessions w))"
proof -
  have run: "res \<noteq> Inl NotRunningError"
    if "sessions w j = Some q" "RunCommand_at fuel w q command = Some (res, w')"
    for j q fuel command res w'
  proof -
    from that(1) assms(1) have "Running (heap w ! q)"
      using reachable_session_running by blast
    moreover from that(2) obtain s' us' where
      "RunCommand fuel (uuids w) (heap w ! q) command = Some (res, s', us')"
      by (auto simp: RunCommand_at_def split: option.splits)
    ultimately show ?thesis by (rule RunCommand_result_running)
  qed
  have a: "p < length (heap w) \<and> Running (heap w ! p)"
    using assms reachable_session_running by (simp add: GetSession_def)
  have b: "fst r \<noteq> Inl NotRunningError" if "RunCommand_at fuel w p command = Some r"
    for fuel command r
    using run[of i p fuel command "fst r" "snd r"] that assms(2) by (simp add: GetSession_def)
  have c: "q \<notin> ran (sessions w)"
    if "RunCommand_at fuel w q command = Some (Inl NotRunningError, w')" for fuel command q w'
    using run[of _ q fuel command "Inl NotRunningError" w'] that by (auto simp: ran_def)
  from a b c show ?thesis by blast
qed

theorem registry_sessions_running_witness:
  "reachable ex_world1 \<and> GetSession ex_world1 ex_marker1 = Some 0
   \<and> 0 < length (heap ex_world1) \<and> Running (heap ex_world1 ! 0)
   \<and> (\<forall>fuel command. map_option fst (RunCommand_at fuel ex_world1 0 command)
         \<noteq> Some (Inl NotRunningError))"
proof -
  have 1: "GetSession ex_world1 ex_marker1 = Some 0"
    by (simp add: GetSession_def ex_world1_eq)
  note t = registry_sessions_running [OF reachable_ex_world1 1]
  have "map_option fst (RunCommand_at f ex_world1 0 c) \<noteq> Some (Inl NotRunningError)" for f c
  proof
    assume "map_option fst (RunCommand_at f ex_world1 0 c) = Some (Inl NotRunningError)"
    then obtain r where "RunCommand_at f ex_world1 0 c = Some r"
      "fst r = Inl NotRunningError" by auto
    with t show False by blast
  qed
  with 1 t reachable_ex_world1 show ?thesis by blast
qed

subsection \<open>One marker for each call\<close>

text \<open>
  Claim C9. Each call of \<^verbatim>\<open>RunCommand\<close> draws a new value from the UUID generator for its
  marker. Of two consecutive commands on a session, the first is written to the process
  with the first value in its \<^verbatim>\<open>Write-Host\<close> and is read with the loop searching for that
  value; the second is written and read with the next value. Provided the generator gives
  two different values (each in the 36-byte text form of a UUID), the markers differ and
  neither occurs in the other, and output that contains the marker of one call as text,
  and not the marker of the other, does not end the read of the other: that call has not
  returned when those reads are used up, and never returns if the stream ends after them.
  Where the search of one call does stop, the bytes there are not the marker of the other.
\<close>

theorem marker_per_call:
  assumes "Running s"
    and "shd (Stdin_outcomes s) = None" and "shd (stl (Stdin_outcomes s)) = None"
    and "RunCommand fuel1 us s command1 = Some (res1, s1, us1)"
    and "RunCommand fuel2 us1 s1 command2 = Some (res2, s2, us2)"
    and "shd us \<noteq> shd (stl us)"
    and "length (shd us) = 36" and "length (shd (stl us)) = 36"
  shows "us1 = stl us \<and> us2 = stl (stl us)
    \<and> Stdin_written s2
        = Stdin_written s @
            [''& { '' @ command1 @ '' } *>&1 | Out-String; Write-Host ''
               @ [CHR 0x27] @ shd us @ [CHR 0x27, CHR 0x0A],
             ''& { '' @ command2 @ '' } *>&1 | Out-String; Write-Host ''
               @ [CHR 0x27] @ shd (stl us) @ [CHR 0x27, CHR 0x0A]]
    \<and> read_loop fuel1 (shd us) (Stdout s) [] = Some (res1, Stdout s1)
    \<and> read_loop fuel2 (shd (stl us)) (Stdout s1) [] = Some (res2, Stdout s2)
    \<and> \<not> sublist (shd (stl us)) (shd us) \<and> \<not> sublist (shd us) (shd (stl us))
    \<and> (\<forall>t rs st c fuel.
          Running t \<and> shd (Stdin_outcomes t) = None \<and> Stdout t = rs @- st \<and> no_failure rs
          \<and> length (received rs) \<le> 1024 * 1024 \<and> sublist (shd us) (received rs)
          \<and> \<not> sublist (shd (stl us)) (received rs) \<and> fuel \<le> length rs
          \<longrightarrow> RunCommand fuel us1 t c = None)
    \<and> (\<forall>t rs c fuel.
          Running t \<and> shd (Stdin_outcomes t) = None \<and> Stdout t = rs @- at_eof \<and> no_failure rs
          \<and> length (received rs) \<le> 1024 * 1024 \<and> sublist (shd us) (received rs)
          \<and> \<not> sublist (shd (stl us)) (received rs)
          \<longrightarrow> RunCommand fuel us1 t c = None)
    \<and> (\<forall>t rs st c fuel.
          Running t \<and> shd (Stdin_outcomes t) = None \<and> Stdout t = rs @- st \<and> no_failure rs
          \<and> length (received rs) \<le> 1024 * 1024 \<and> sublist (shd (stl us)) (received rs)
          \<and> \<not> sublist (shd us) (received rs) \<and> fuel \<le> length rs
          \<longrightarrow> RunCommand fuel us t c = None)
    \<and> (\<forall>out bs i. scan_new (shd (stl us)) out bs = Some i
          \<longrightarrow> take 36 (drop i (out @ bs)) \<noteq> shd us)
    \<and> (\<forall>out bs i. scan_new (shd us) out bs = Some i
          \<longrightarrow> take 36 (drop i (out @ bs)) \<noteq> shd (stl us))"
proof -
  from assms(1,2,4) obtain rest1 where
    1: "s1 = after_command s command1 (shd us) rest1" "us1 = stl us"
    and l1: "read_loop fuel1 (shd us) (Stdout s) [] = Some (res1, rest1)"
    by (auto simp: RunCommand_read_loop)
  then have r1: "Running s1" "shd (Stdin_outcomes s1) = None"
    using assms(1,3) by (simp_all add: after_command_def)
  with assms(5) obtain rest2 where
    2: "s2 = after_command s1 command2 (shd us1) rest2" "us2 = stl us1"
    and l2: "read_loop fuel2 (shd us1) (Stdout s1) [] = Some (res2, rest2)"
    by (auto simp: RunCommand_read_loop)
  have u: "us1 = stl us" "us2 = stl (stl us)"
    using 1(2) 2(2) by simp_all
  have w: "Stdin_written s2
        = Stdin_written s @
            [''& { '' @ command1 @ '' } *>&1 | Out-String; Write-Host ''
               @ [CHR 0x27] @ shd us @ [CHR 0x27, CHR 0x0A],
             ''& { '' @ command2 @ '' } *>&1 | Out-String; Write-Host ''
               @ [CHR 0x27] @ shd (stl us) @ [CHR 0x27, CHR 0x0A]]"
    by (simp add: 1 2 after_command_def fullCommand_def)
  have l: "read_loop fuel1 (shd us) (Stdout s) [] = Some (res1, Stdout s1)"
    "read_loop fuel2 (shd (stl us)) (Stdout s1) [] = Some (res2, Stdout s2)"
    using l1 l2 unfolding 1(2) by (simp_all add: 1(1) 2(1) after_command_def)
  have n: "\<not> sublist (shd (stl us)) (shd us)" "\<not> sublist (shd us) (shd (stl us))"
    using assms(6-8) by (simp_all add: not_sublist_same_length)
  have c2: "RunCommand fuel us1 t c = None"
    if "Running t \<and> shd (Stdin_outcomes t) = None \<and> Stdout t = rs @- st \<and> no_failure rs
          \<and> length (received rs) \<le> 1024 * 1024 \<and> sublist (shd us) (received rs)
          \<and> \<not> sublist (shd (stl us)) (received rs) \<and> fuel \<le> length rs"
    for t rs st c fuel
    unfolding u(1) using that by (intro RunCommand_within[of t rs st]) simp_all
  have e2: "RunCommand fuel us1 t c = None"
    if "Running t \<and> shd (Stdin_outcomes t) = None \<and> Stdout t = rs @- at_eof \<and> no_failure rs
          \<and> length (received rs) \<le> 1024 * 1024 \<and> sublist (shd us) (received rs)
          \<and> \<not> sublist (shd (stl us)) (received rs)"
    for t rs c fuel
    unfolding u(1) using that by (intro RunCommand_never[of t rs]) simp_all
  have c1: "RunCommand fuel us t c = None"
    if "Running t \<and> shd (Stdin_outcomes t) = None \<and> Stdout t = rs @- st \<and> no_failure rs
          \<and> length (received rs) \<le> 1024 * 1024 \<and> sublist (shd (stl us)) (received rs)
          \<and> \<not> sublist (shd us) (received rs) \<and> fuel \<le> length rs"
    for t rs st c fuel
    using that by (intro RunCommand_within[of t rs st]) simp_all
  have a: "take 36 (drop i (out @ bs)) \<noteq> shd us"
    if "scan_new (shd (stl us)) out bs = Some i" for out bs i
    using scan_new_Some[OF that] assms(6,8) by auto
  have b: "take 36 (drop i (out @ bs)) \<noteq> shd (stl us)"
    if "scan_new (shd us) out bs = Some i" for out bs i
    using scan_new_Some[OF that] assms(6,7) by auto
  show ?thesis
    apply (intro conjI allI impI)
    subgoal by (rule u(1))
    subgoal by (rule u(2))
    subgoal by (rule w)
    subgoal by (rule l(1))
    subgoal by (rule l(2))
    subgoal by (rule n(1))
    subgoal by (rule n(2))
    subgoal for t rs st c fuel by (rule c2)
    subgoal for t rs c fuel by (rule e2)
    subgoal for t rs st c fuel by (rule c1)
    subgoal for out bs i by (rule a)
    subgoal for out bs i by (rule b)
    done
qed

theorem marker_per_call_witness:
  "RunCommand (Suc (Suc 0)) ex_uuids ex_two_commands_session ''echo 123xxx''
     = Some (Inr ''123xxx'',
         after_command ex_two_commands_session ''echo 123xxx'' ex_marker1 (ex_second_read ## at_eof),
         stl ex_uuids)
   \<and> RunCommand (Suc 0) (stl ex_uuids)
        (after_command ex_two_commands_session ''echo 123xxx'' ex_marker1 (ex_second_read ## at_eof))
        ''echo echoed''
     = Some (Inr (''echoed '' @ ex_marker1),
         after_command
           (after_command ex_two_commands_session ''echo 123xxx'' ex_marker1 (ex_second_read ## at_eof))
           ''echo echoed'' ex_marker2 at_eof,
         stl (stl ex_uuids))
   \<and> Stdin_written
        (after_command
           (after_command ex_two_commands_session ''echo 123xxx'' ex_marker1 (ex_second_read ## at_eof))
           ''echo echoed'' ex_marker2 at_eof)
     = [''& { echo 123xxx } *>&1 | Out-String; Write-Host ''
          @ [CHR 0x27] @ ex_marker1 @ [CHR 0x27, CHR 0x0A],
        ''& { echo echoed } *>&1 | Out-String; Write-Host ''
          @ [CHR 0x27] @ ex_marker2 @ [CHR 0x27, CHR 0x0A]]
   \<and> ex_marker1 \<noteq> ex_marker2
   \<and> sublist ex_marker1 (received [(''echoed '' @ ex_marker1 @ [CHR 0x0D, CHR 0x0A], err_nil)])
   \<and> (\<forall>fuel. RunCommand fuel (stl ex_uuids) ex_other_marker_session ''echo echoed'' = None)"
proof -
  let ?s1 = "after_command ex_two_commands_session ''echo 123xxx'' ex_marker1 (ex_second_read ## at_eof)"
  let ?s2 = "after_command ?s1 ''echo echoed'' ex_marker2 at_eof"
  let ?rs = "[(''echoed '' @ ex_marker1 @ [CHR 0x0D, CHR 0x0A], err_nil)]"
  have 1: "Running ex_two_commands_session"
    and 2: "shd (Stdin_outcomes ex_two_commands_session) = None"
    and 3: "shd (stl (Stdin_outcomes ex_two_commands_session)) = None"
    by (simp_all add: ex_two_commands_session_def ex_session_def)
  have 4: "RunCommand (Suc (Suc 0)) ex_uuids ex_two_commands_session ''echo 123xxx''
     = Some (Inr ''123xxx'', ?s1, stl ex_uuids)"
    by (simp add: RunCommand_def ex_two_commands_session_def ex_session_def ex_whole_reads_def
        ex_uuids_def ex_marker1_def after_command_def loop_body_def scan_new_def find_marker_def
        strip_newline_def Let_def)
  have 5: "RunCommand (Suc 0) (stl ex_uuids) ?s1 ''echo echoed''
     = Some (Inr (''echoed '' @ ex_marker1), ?s2, stl (stl ex_uuids))"
    by (simp add: RunCommand_def ex_two_commands_session_def ex_session_def ex_second_read_def
        ex_uuids_def ex_marker1_def ex_marker2_def after_command_def loop_body_def scan_new_def
        find_marker_def strip_newline_def Let_def)
  have 6: "shd ex_uuids \<noteq> shd (stl ex_uuids)"
    and 7: "length (shd ex_uuids) = 36" and 8: "length (shd (stl ex_uuids)) = 36"
    by (simp_all add: ex_uuids_def ex_marker1_def ex_marker2_def)
  have m: "shd ex_uuids = ex_marker1" "shd (stl ex_uuids) = ex_marker2"
    by (simp_all add: ex_uuids_def)
  have w: "Stdin_written ex_two_commands_session = []"
    by (simp add: ex_two_commands_session_def ex_session_def)
  note t = marker_per_call [OF 1 2 3 4 5 6 7 8, unfolded m w]
  have o: "Running ex_other_marker_session" "shd (Stdin_outcomes ex_other_marker_session) = None"
    "Stdout ex_other_marker_session = ?rs @- at_eof" "no_failure ?rs"
    "length (received ?rs) \<le> 1024 * 1024"
    by (simp_all add: ex_other_marker_session_def ex_session_def no_failure_def is_failure_def
        received_def ex_marker1_def)
  have "received ?rs = ''echoed '' @ ex_marker1 @ [CHR 0x0D, CHR 0x0A]"
    by (simp add: received_def)
  then have p: "sublist ex_marker1 (received ?rs)"
    by (simp only: sublist_appendI)
  have q: "\<not> sublist ex_marker2 (received ?rs)"
    by (simp add: received_def ex_marker1_def ex_marker2_def sublist_code)
  from t have "\<forall>t rs c fuel.
          Running t \<and> shd (Stdin_outcomes t) = None \<and> Stdout t = rs @- at_eof \<and> no_failure rs
          \<and> length (received rs) \<le> 1024 * 1024 \<and> sublist ex_marker1 (received rs)
          \<and> \<not> sublist ex_marker2 (received rs)
          \<longrightarrow> RunCommand fuel (stl ex_uuids) t c = None"
    by (elim conjE)
  with o p q have e: "\<forall>fuel. RunCommand fuel (stl ex_uuids) ex_other_marker_session ''echo echoed'' = None"
    by blast
  from t have s: "Stdin_written ?s2
     = [''& { echo 123xxx } *>&1 | Out-String; Write-Host ''
          @ [CHR 0x27] @ ex_marker1 @ [CHR 0x27, CHR 0x0A],
        ''& { echo echoed } *>&1 | Out-String; Write-Host ''
          @ [CHR 0x27] @ ex_marker2 @ [CHR 0x27, CHR 0x0A]]"
    by simp
  from 6 have d: "ex_marker1 \<noteq> ex_marker2" unfolding m .
  show ?thesis
    by (intro conjI 4 5 s d p e)
qed

end
